theory Spec2Isabelle
  imports Complex_Main "HOL-Library.Sublist" "HOL-Library.AList"
begin

section \<open>Coordinate converter (src/utils/coordinate-system.ts)\<close>

text \<open>
  The static methods of \<open>CoordinateConverter\<close>. JavaScript numbers are modelled as
  reals; an optional parameter with default \<open>0\<close> is an explicit argument.
\<close>

definition toCanvasX :: "real \<Rightarrow> real \<Rightarrow> real" where
  "toCanvasX layoutY offsetX = layoutY + offsetX"

definition toCanvasY :: "real \<Rightarrow> real \<Rightarrow> real \<Rightarrow> real" where
  "toCanvasY layoutX nodeHeight offsetY = layoutX + offsetY - nodeHeight / 2"

definition toLayoutX :: "real \<Rightarrow> real \<Rightarrow> real \<Rightarrow> real" where
  "toLayoutX canvasY nodeHeight offsetY = canvasY - offsetY + nodeHeight / 2"

definition isOverlapping :: "real \<Rightarrow> real \<Rightarrow> real \<Rightarrow> real \<Rightarrow> real \<Rightarrow> bool" where
  "isOverlapping layoutX1 height1 layoutX2 height2 gap =
     (let top1 = layoutX1 - height1 / 2;
          bottom1 = layoutX1 + height1 / 2;
          top2 = layoutX2 - height2 / 2;
          bottom2 = layoutX2 + height2 / 2
      in \<not> (bottom1 + gap \<le> top2 \<or> bottom2 + gap \<le> top1))"

definition calculateActualGap :: "real \<Rightarrow> real \<Rightarrow> real \<Rightarrow> real \<Rightarrow> real" where
  "calculateActualGap layoutX1 height1 layoutX2 height2 =
     (let bottom1 = layoutX1 + height1 / 2;
          top2 = layoutX2 - height2 / 2
      in top2 - bottom1)"

section \<open>JavaScript strings and numbers used by the text measurer\<close>

text \<open>
  A string is the list of its code units. \<open>js_split\<close> is \<open>String.prototype.split\<close> with a
  one-character separator, \<open>js_join\<close> is \<open>Array.prototype.join\<close>, \<open>js_includes key text\<close> is
  \<open>key.includes(text)\<close>, and \<open>string_of_nat\<close> is the decimal rendering of a non-negative
  integer inside a template literal.
\<close>

fun js_split :: "char \<Rightarrow> string \<Rightarrow> string list" where
  "js_split sep [] = [[]]"
| "js_split sep (c # cs) =
     (if c = sep then [] # js_split sep cs
      else (case js_split sep cs of
              w # ws \<Rightarrow> (c # w) # ws
            | [] \<Rightarrow> [[c]]))"

fun js_join :: "string \<Rightarrow> string list \<Rightarrow> string" where
  "js_join sep [] = []"
| "js_join sep [w] = w"
| "js_join sep (w # v # ws) = w @ sep @ js_join sep (v # ws)"

fun js_includes :: "string \<Rightarrow> string \<Rightarrow> bool" where
  "js_includes [] text = (text = [])"
| "js_includes (c # cs) text = (prefix text (c # cs) \<or> js_includes cs text)"

definition digit_char :: "nat \<Rightarrow> char" where
  "digit_char d = ''0123456789'' ! (d mod 10)"

function string_of_nat :: "nat \<Rightarrow> string" where
  "string_of_nat n =
     (if n < 10 then [digit_char n] else string_of_nat (n div 10) @ [digit_char (n mod 10)])"
  by pat_completeness auto
termination
  by (relation "measure (\<lambda>n. n)") auto

declare string_of_nat.simps [simp del]

definition is_digit :: "char \<Rightarrow> bool" where
  "is_digit c = (c \<in> set ''0123456789'')"

definition digit_val :: "char \<Rightarrow> nat" where
  "digit_val c = of_char c - 48"

text \<open>
  \<open>parseInt\<close> on a string that starts with decimal digits: the value of the longest digit
  prefix. \<open>None\<close> stands for \<open>NaN\<close> (no leading digit); leading white space, signs and the
  \<open>0x\<close> prefix do not occur in the font-size constants and are not modelled.
\<close>

definition parseInt :: "string \<Rightarrow> nat option" where
  "parseInt s =
     (let ds = takeWhile is_digit s
      in if ds = [] then None else Some (foldl (\<lambda>a c. 10 * a + digit_val c) 0 ds))"

text \<open>
  The value of \<open>Math.floor(maxWidth / charWidth)\<close>: an integer, or one of the three
  non-finite results of a division by zero (\<open>Infinity\<close>, \<open>-Infinity\<close>, \<open>NaN\<close>).
\<close>

datatype jsnum = Fin int | PosInf | NegInf | NaN

definition floor_quot :: "real \<Rightarrow> real \<Rightarrow> jsnum" where
  "floor_quot a b =
     (if b \<noteq> 0 then Fin \<lfloor>a / b\<rfloor>
      else if a > 0 then PosInf
      else if a < 0 then NegInf
      else NaN)"

text \<open>\<open>len_le n m\<close> is the comparison \<open>n <= m\<close> of a string length with such a number.\<close>

fun len_le :: "nat \<Rightarrow> jsnum \<Rightarrow> bool" where
  "len_le n (Fin m) = (int n \<le> m)"
| "len_le n PosInf = True"
| "len_le n NegInf = False"
| "len_le n NaN = False"

text \<open>\<open>text.substring(0, m)\<close>: \<open>NaN\<close> and negative ends count as \<open>0\<close>.\<close>

fun substring0 :: "string \<Rightarrow> jsnum \<Rightarrow> string" where
  "substring0 text (Fin m) = take (nat m) text"
| "substring0 text PosInf = text"
| "substring0 text NegInf = []"
| "substring0 text NaN = []"

section \<open>Style constants (constants/mindmap-constants)\<close>

definition ROOT_FONT_SIZE :: string where "ROOT_FONT_SIZE = ''20px''"

definition LEVEL_1_FONT_SIZE :: string where "LEVEL_1_FONT_SIZE = ''18px''"

definition DEFAULT_FONT_SIZE :: string where "DEFAULT_FONT_SIZE = ''15px''"

definition getFontSizeByDepth :: "nat \<Rightarrow> string" where
  "getFontSizeByDepth depth =
     (if depth = 0 then ROOT_FONT_SIZE
      else if depth = 1 then LEVEL_1_FONT_SIZE
      else DEFAULT_FONT_SIZE)"

section \<open>Text measurer (src/utils/TextMeasurer.ts)\<close>

record NodeDimensions =
  width :: real
  height :: real
  textX :: real
  textY :: real
  fontSize :: string
  fontWeight :: string
  lines :: "string list"
  padding :: real
  minWidth :: real
  maxWidth :: "real option"

text \<open>
  The hidden measurement element is modelled by what it is used for: given the text
  content, the font size in pixels and the font weight, the \<open>(width, height)\<close> of its
  bounding client rectangle. A parameter whose name is also a field of \<open>NodeDimensions\<close>
  carries a prime. A measurement \<open>{width, height}\<close> is a pair. A \<open>Map\<close> is an association
  list in insertion order: \<open>map_of\<close> is \<open>get\<close>, \<open>AList.update\<close> is \<open>set\<close>, \<open>AList.delete\<close> is
  \<open>delete\<close>, \<open>map fst\<close> is \<open>keys\<close>.
\<close>

type_synonym element = "string \<Rightarrow> nat \<Rightarrow> string \<Rightarrow> real \<times> real"

text \<open>
  The global \<open>document\<close>, as far as the measurer uses it. \<open>NoDocument\<close>: there is no such
  global, and evaluating \<open>document\<close> throws a \<open>ReferenceError\<close>. \<open>Document e\<close>: there is one,
  it has a body, and \<open>document.createElement('div')\<close> yields \<open>e\<close>, with \<open>None\<close> for a null
  result, on which the method call \<open>.addClass\<close> throws a \<open>TypeError\<close>.
\<close>

datatype error = ReferenceError | TypeError

datatype document = NoDocument | Document "element option"

text \<open>
  A method that can throw returns the thrown error or its value, \<open>Inl\<close> the error, together
  with the state the measurer is left in.
\<close>

record TextMeasurer =
  textMeasurementElement :: "element option"
  textMeasurementCache :: "(string \<times> (real \<times> real)) list"
  nodeDimensionsCache :: "(string \<times> NodeDimensions) list"

definition new_TextMeasurer :: TextMeasurer where
  "new_TextMeasurer =
     \<lparr>textMeasurementElement = None, textMeasurementCache = [], nodeDimensionsCache = []\<rparr>"

text \<open>
  \<open>initializeTextMeasurementElement\<close>: the created element is assigned first, then
  \<open>addClass\<close> is called on it and it is appended to the document body; on an element both
  calls succeed and leave the state of the measurer as it is.
\<close>

definition initializeTextMeasurementElement ::
  "document \<Rightarrow> TextMeasurer \<Rightarrow> (error + unit) \<times> TextMeasurer" where
  "initializeTextMeasurementElement document this =
     (if textMeasurementElement this = None
      then
        (case document of
           NoDocument \<Rightarrow> (Inl ReferenceError, this)
         | Document created \<Rightarrow>
             (let this1 = this\<lparr>textMeasurementElement := created\<rparr>
              in case created of
                   None \<Rightarrow> (Inl TypeError, this1)
                 | Some el \<Rightarrow> (Inr (), this1)))
      else (Inr (), this))"

definition measureTextAccurately ::
  "document \<Rightarrow> string \<Rightarrow> nat \<Rightarrow> string \<Rightarrow> TextMeasurer
     \<Rightarrow> (error + real \<times> real) \<times> TextMeasurer" where
  "measureTextAccurately document text fontSize' fontWeight' this =
     (let cacheKey = text @ ''-'' @ string_of_nat fontSize' @ ''-'' @ fontWeight'
      in case map_of (textMeasurementCache this) cacheKey of
           Some cached \<Rightarrow> (Inr cached, this)
         | None \<Rightarrow>
             (case initializeTextMeasurementElement document this of
                (Inl e, this1) \<Rightarrow> (Inl e, this1)
              | (Inr u, this1) \<Rightarrow>
                  (case textMeasurementElement this1 of
                     Some el \<Rightarrow>
                       (let result = el text fontSize' fontWeight'
                        in (Inr result,
                            this1\<lparr>textMeasurementCache :=
                                     AList.update cacheKey result (textMeasurementCache this1)\<rparr>))
                   | None \<Rightarrow>
                       (let charWidth = real fontSize' * 0.62;
                            lineHeight = real fontSize' * 1.2
                        in (Inr (real (length text) * charWidth, lineHeight), this1)))))"

text \<open>
  The word loop of \<open>wrapText\<close>: the remaining words, the lines pushed so far and the
  current line; a string is truthy when it is not empty.
\<close>

fun wrapLoop :: "jsnum \<Rightarrow> string list \<Rightarrow> string list \<Rightarrow> string \<Rightarrow> string list \<times> string" where
  "wrapLoop maxChars [] lines' currentLine = (lines', currentLine)"
| "wrapLoop maxChars (word # words) lines' currentLine =
     (let testLine = (if currentLine \<noteq> [] then currentLine @ '' '' @ word else word)
      in if len_le (length testLine) maxChars
         then wrapLoop maxChars words lines' testLine
         else wrapLoop maxChars words
                (if currentLine \<noteq> [] then lines' @ [currentLine] else lines') word)"

definition wrapText :: "string \<Rightarrow> real option \<Rightarrow> real \<Rightarrow> string list" where
  "wrapText text maxWidth' fontSize' =
     (if text = [] then ['''']
      else case maxWidth' of
             None \<Rightarrow> (if CHR 0x0A \<in> set text then js_split (CHR 0x0A) text else [text])
           | Some mw \<Rightarrow>
               (let charWidth = fontSize' * 0.62;
                    maxChars = floor_quot mw charWidth
                in if len_le (length text) maxChars then [text]
                   else
                     (let words = js_split (CHR '' '') text;
                          (pushed, currentLine) = wrapLoop maxChars words [] [];
                          lines = (if currentLine \<noteq> [] then pushed @ [currentLine] else pushed)
                      in if length lines > 0 then lines else [substring0 text maxChars])))"

text \<open>
  The loop of \<open>measureTextSize\<close> over the lines, with the running maximum width; an error
  thrown while a line is measured ends it.
\<close>

fun measureLines ::
  "document \<Rightarrow> nat \<Rightarrow> string \<Rightarrow> string list \<Rightarrow> real \<Rightarrow> TextMeasurer
     \<Rightarrow> (error + real) \<times> TextMeasurer" where
  "measureLines document fontSize' fontWeight' [] maxWidth' this = (Inr maxWidth', this)"
| "measureLines document fontSize' fontWeight' (line # rest) maxWidth' this =
     (case measureTextAccurately document line fontSize' fontWeight' this of
        (Inl e, this1) \<Rightarrow> (Inl e, this1)
      | (Inr measurement, this1) \<Rightarrow>
          measureLines document fontSize' fontWeight' rest
            (if fst measurement > maxWidth' then fst measurement else maxWidth') this1)"

definition measureTextSize ::
  "document \<Rightarrow> string list \<Rightarrow> nat \<Rightarrow> string \<Rightarrow> TextMeasurer
     \<Rightarrow> (error + real \<times> real) \<times> TextMeasurer" where
  "measureTextSize document lines' fontSize' fontWeight' this =
     (if length lines' = 0 then (Inr (40, real fontSize' * 1.3), this)
      else
        (let lineHeight = real fontSize' * 1.3
         in case measureLines document fontSize' fontWeight' lines' 0 this of
              (Inl e, this1) \<Rightarrow> (Inl e, this1)
            | (Inr maxWidth', this1) \<Rightarrow>
                (let height = real (length lines') * lineHeight;
                     width = max maxWidth' 35
                 in (Inr (of_int \<lceil>width\<rceil>, of_int \<lceil>height\<rceil>), this1))))"

definition nodeCacheKey :: "nat \<Rightarrow> string \<Rightarrow> string" where
  "nodeCacheKey depth text =
     string_of_nat depth @ ''-'' @ text @ ''-'' @ string_of_nat (length text)"

text \<open>
  \<open>getNodeDimensions\<close>. The imported \<open>cleanTextContent\<close> (utils/mindmap-utils) is the
  parameter \<open>clean\<close>; the depth is a non-negative integer. The result is \<open>None\<close> only if
  \<open>parseInt\<close> gave \<open>NaN\<close>, which the real numbers do not carry; otherwise it is the error
  thrown by the measurement or the dimensions, with the state of the measurer.
\<close>

definition getNodeDimensions ::
  "(string \<Rightarrow> string) \<Rightarrow> document \<Rightarrow> nat \<Rightarrow> string \<Rightarrow> TextMeasurer
     \<Rightarrow> ((error + NodeDimensions) \<times> TextMeasurer) option" where
  "getNodeDimensions clean document depth text this =
     (let cacheKey = nodeCacheKey depth text
      in case map_of (nodeDimensionsCache this) cacheKey of
           Some cached \<Rightarrow> Some (Inr cached, this)
         | None \<Rightarrow>
             (let cleanedText = clean text;
                  (fontSize, fontWeight, maxWidth, minWidth, padding) =
                    (if depth = 0 then (getFontSizeByDepth 0, ''bold'', None, 40, 18)
                     else if depth = 1 then (getFontSizeByDepth 1, ''bold'', None, 38, 16)
                     else (getFontSizeByDepth depth, ''normal'', None, 20, 10))
              in case parseInt fontSize of
                   None \<Rightarrow> None
                 | Some fontSizeNum \<Rightarrow>
                     (let effectiveMaxWidth =
                            (case maxWidth of Some mw \<Rightarrow> Some (mw - padding * 2) | None \<Rightarrow> None);
                          lines = wrapText cleanedText effectiveMaxWidth (real fontSizeNum)
                      in case measureTextSize document lines fontSizeNum fontWeight this of
                           (Inl e, this1) \<Rightarrow> Some (Inl e, this1)
                         | (Inr textSize, this1) \<Rightarrow>
                             (let safetyBuffer = max 8 (fst textSize * 0.05);
                                  width = max (fst textSize + padding * 2 + safetyBuffer) minWidth;
                                  height = max (snd textSize + padding * 2) (real fontSizeNum * 2.0);
                                  textX = width / 2;
                                  textY = snd textSize / 2 + padding / 2;
                                  result =
                                    \<lparr>width = width, height = height, textX = textX,
                                       textY = textY, fontSize = fontSize,
                                       fontWeight = fontWeight, lines = lines,
                                       padding = padding, minWidth = minWidth,
                                       maxWidth = maxWidth\<rparr>
                              in Some (Inr result,
                                       this1\<lparr>nodeDimensionsCache :=
                                                AList.update cacheKey result
                                                  (nodeDimensionsCache this1)\<rparr>)))))"

definition clearNodeDimensionsCacheForText :: "string \<Rightarrow> TextMeasurer \<Rightarrow> TextMeasurer" where
  "clearNodeDimensionsCacheForText text this =
     (let keysToDelete = filter (\<lambda>key. js_includes key text) (map fst (nodeDimensionsCache this));
          this1 = this\<lparr>nodeDimensionsCache := fold AList.delete keysToDelete (nodeDimensionsCache this)\<rparr>;
          textKeysToDelete = filter (\<lambda>key. js_includes key text) (map fst (textMeasurementCache this1));
          this2 = this1\<lparr>textMeasurementCache :=
                          fold AList.delete textKeysToDelete (textMeasurementCache this1)\<rparr>
      in this2)"

text \<open>
  \<open>destroy\<close>: the element, once created, has been appended to the document body, so its
  parent node is not null and the reference is reset; both caches are cleared.
\<close>

definition destroy :: "TextMeasurer \<Rightarrow> TextMeasurer" where
  "destroy this =
     this\<lparr>textMeasurementElement := None, textMeasurementCache := [],
          nodeDimensionsCache := []\<rparr>"

section \<open>The style table and the cache invariant\<close>

text \<open>
  The three branches of \<open>getNodeDimensions\<close> on the depth, read as functions of the depth:
  the numeric font size, the font weight, the minimum width and the padding.
\<close>

definition depthFontSize :: "nat \<Rightarrow> nat" where
  "depthFontSize depth = (if depth = 0 then 20 else if depth = 1 then 18 else 15)"

definition depthFontWeight :: "nat \<Rightarrow> string" where
  "depthFontWeight depth = (if depth = 0 then ''bold'' else if depth = 1 then ''bold'' else ''normal'')"

definition depthMinWidth :: "nat \<Rightarrow> real" where
  "depthMinWidth depth = (if depth = 0 then 40 else if depth = 1 then 38 else 20)"

definition depthPadding :: "nat \<Rightarrow> real" where
  "depthPadding depth = (if depth = 0 then 18 else if depth = 1 then 16 else 10)"

text \<open>
  The box that \<open>getNodeDimensions\<close> builds at a depth from the wrapped lines and the text
  size \<open>(width, height)\<close> that \<open>measureTextSize\<close> returned for them.
\<close>

definition boxOf :: "nat \<Rightarrow> string list \<Rightarrow> real \<times> real \<Rightarrow> NodeDimensions" where
  "boxOf depth ls textSize =
     \<lparr>width = max (fst textSize + depthPadding depth * 2 + max 8 (fst textSize * 0.05))
                  (depthMinWidth depth),
        height = max (snd textSize + depthPadding depth * 2) (real (depthFontSize depth) * 2.0),
        textX = max (fst textSize + depthPadding depth * 2 + max 8 (fst textSize * 0.05))
                  (depthMinWidth depth) / 2,
        textY = snd textSize / 2 + depthPadding depth / 2,
        fontSize = getFontSizeByDepth depth,
        fontWeight = depthFontWeight depth,
        lines = ls,
        padding = depthPadding depth,
        minWidth = depthMinWidth depth,
        maxWidth = None\<rparr>"

text \<open>
  What a cached entry for a depth and a text is: the box of the wrapped lines of the
  cleaned text and of a text size whose width is the ceiling of some measured width,
  floored at 35, and whose height is the ceiling of the line count times the line height.
\<close>

definition dims_ok :: "(string \<Rightarrow> string) \<Rightarrow> nat \<Rightarrow> string \<Rightarrow> NodeDimensions \<Rightarrow> bool" where
  "dims_ok clean depth text d =
     (\<exists>mw :: real.
        d = boxOf depth (wrapText (clean text) None (real (depthFontSize depth)))
              (real_of_int \<lceil>max mw 35\<rceil>,
               real_of_int \<lceil>real (length (wrapText (clean text) None (real (depthFontSize depth))))
                              * (real (depthFontSize depth) * 1.3)\<rceil>))"

text \<open>
  The invariant of the node-dimension cache: every entry sits under the key of some depth
  and text and holds dimensions computed for them.
\<close>

definition cache_ok :: "(string \<Rightarrow> string) \<Rightarrow> TextMeasurer \<Rightarrow> bool" where
  "cache_ok clean this =
     (\<forall>(k, d) \<in> set (nodeDimensionsCache this).
        \<exists>depth text. k = nodeCacheKey depth text \<and> dims_ok clean depth text d)"

text \<open>
  The states of a measurer: a new one, and whatever its public methods make of it, with any
  arguments and any document, whether the call returned or threw. The caches are private,
  so these are all the states a call can find.
\<close>

inductive reachable :: "(string \<Rightarrow> string) \<Rightarrow> TextMeasurer \<Rightarrow> bool" for clean where
  reachable_new: "reachable clean new_TextMeasurer"
| reachable_getNodeDimensions:
    "reachable clean this \<Longrightarrow> getNodeDimensions clean document depth text this = Some (r, this')
     \<Longrightarrow> reachable clean this'"
| reachable_clear:
    "reachable clean this \<Longrightarrow> reachable clean (clearNodeDimensionsCacheForText text this)"
| reachable_measureTextAccurately:
    "reachable clean this
     \<Longrightarrow> reachable clean (snd (measureTextAccurately document text fs fw this))"
| reachable_measureTextSize:
    "reachable clean this \<Longrightarrow> reachable clean (snd (measureTextSize document ls fs fw this))"
| reachable_destroy: "reachable clean this \<Longrightarrow> reachable clean (destroy this)"

text \<open>
  \<open>can_measure document this\<close>: the measurer has its element already, or the document
  creates one.
\<close>

definition can_measure :: "document \<Rightarrow> TextMeasurer \<Rightarrow> bool" where
  "can_measure document this =
     (case textMeasurementElement this of
        Some el \<Rightarrow> True
      | None \<Rightarrow> (case document of Document (Some el) \<Rightarrow> True | _ \<Rightarrow> False))"

section \<open>Lines made of whole words\<close>

text \<open>
  \<open>whole_words words line\<close>: the line is a non-empty run of consecutive words of the list,
  joined by single spaces.
\<close>

definition whole_words :: "string list \<Rightarrow> string \<Rightarrow> bool" where
  "whole_words words line =
     (\<exists>ws. ws \<noteq> [] \<and> sublist ws words \<and> line = js_join '' '' ws)"

section \<open>Overlap resolution\<close>

text \<open>
  Modelled from the spec: the overlap detector and resolver (\<open>resolveOverlaps\<close>, section
  4.4 of the specification) is not among the sources; only the predicate it reuses,
  \<open>CoordinateConverter.isOverlapping\<close>, and the gap function \<open>calculateActualGap\<close> are. A
  node carries its vertical center, its height and its ordered children; a node is
  identified by its path of child indices from the root.
\<close>

datatype node = Node (center: real) (nodeHeight: real) (children: "node list")

text \<open>
  Modelled from the spec: "propagate the same delta to that node's entire subtree
  (children keep their relative offsets)".
\<close>

fun shift :: "real \<Rightarrow> node \<Rightarrow> node" where
  "shift delta (Node c h cs) = Node (c + delta) h (map (shift delta) cs)"

text \<open>Modelled from the spec: the node at a path, if the path leads to one.\<close>

fun node_at :: "node \<Rightarrow> nat list \<Rightarrow> node option" where
  "node_at n [] = Some n"
| "node_at (Node c h cs) (i # path) = (if i < length cs then node_at (cs ! i) path else None)"

text \<open>Modelled from the spec: pushing down the node at a path together with its subtree.\<close>

fun shift_at :: "nat list \<Rightarrow> real \<Rightarrow> node \<Rightarrow> node" where
  "shift_at [] delta n = shift delta n"
| "shift_at (i # path) delta (Node c h cs) =
     (if i < length cs then Node c h (cs[i := shift_at path delta (cs ! i)]) else Node c h cs)"

text \<open>Modelled from the spec: the nodes of the tree in "a stable pre-order traversal".\<close>

fun preorder :: "node \<Rightarrow> nat list list"
  and preorder_from :: "nat \<Rightarrow> node list \<Rightarrow> nat list list" where
  "preorder (Node c h cs) = [] # preorder_from 0 cs"
| "preorder_from i [] = []"
| "preorder_from i (n # ns) = map ((#) i) (preorder n) @ preorder_from (Suc i) ns"

text \<open>
  Modelled from the spec: two nodes are "in an ancestor/descendant relationship" when the
  path of one is a prefix of the path of the other.
\<close>

definition related :: "nat list \<Rightarrow> nat list \<Rightarrow> bool" where
  "related p q = (prefix p q \<or> prefix q p)"

text \<open>
  Modelled from the spec: all pairs of a list of nodes, the earlier node first, and the
  center of the node at a path, by which the nodes are put in vertical order.
\<close>

fun pairs :: "'a list \<Rightarrow> ('a \<times> 'a) list" where
  "pairs [] = []"
| "pairs (x # xs) = map (Pair x) xs @ pairs xs"

definition center_at :: "node \<Rightarrow> nat list \<Rightarrow> real" where
  "center_at rootNode p = (case node_at rootNode p of Some n \<Rightarrow> center n | None \<Rightarrow> 0)"

text \<open>
  Modelled from the spec: the candidate pairs of one detection pass, "in vertical order
  (top to bottom)", the upper node first; of two nodes with identical centers "the one
  appearing later in a stable pre-order traversal is treated as lower" (the sort is
  stable). Pairs in an ancestor/descendant relationship are filtered out "explicitly by
  relationship".
\<close>

definition candidates :: "node \<Rightarrow> (nat list \<times> nat list) list" where
  "candidates rootNode =
     filter (\<lambda>(p, q). \<not> related p q) (pairs (sort_key (center_at rootNode) (preorder rootNode)))"

text \<open>An entry of the audit trail: the node, its previous center and its new center.\<close>

type_synonym adjustment = "nat list \<times> real \<times> real"

text \<open>
  Modelled from the spec: "for each violation, push the lower node down by exactly the
  negative gap amount (\<open>newCenter = oldCenter + (minGap - gap)\<close>), then propagate the same
  delta to that node's entire subtree"; the violation is detected by \<open>isOverlapping\<close> with
  the configured minimum gap.
\<close>

definition resolve_pair ::
  "real \<Rightarrow> nat list \<times> nat list \<Rightarrow> node \<times> adjustment list \<Rightarrow> node \<times> adjustment list" where
  "resolve_pair minGap pq state =
     (case pq of (p, q) \<Rightarrow>
      case state of (rootNode, adjustments) \<Rightarrow>
        (case (node_at rootNode p, node_at rootNode q) of
           (Some upper, Some lower) \<Rightarrow>
             if isOverlapping (center upper) (nodeHeight upper)
                  (center lower) (nodeHeight lower) minGap
             then
               (let gap = calculateActualGap (center upper) (nodeHeight upper)
                            (center lower) (nodeHeight lower);
                    delta = minGap - gap
                in (shift_at q delta rootNode,
                    adjustments @ [(q, center lower, center lower + delta)]))
             else (rootNode, adjustments)
         | _ \<Rightarrow> (rootNode, adjustments)))"

text \<open>Modelled from the spec: one full detection pass over the candidate pairs.\<close>

definition detection_pass :: "real \<Rightarrow> node \<Rightarrow> node \<times> adjustment list" where
  "detection_pass minGap rootNode = fold (resolve_pair minGap) (candidates rootNode) (rootNode, [])"

text \<open>
  Modelled from the spec: "re-run detection until a full pass produces zero adjustments
  (convergence) or an iteration cap is hit - if the cap is hit, the result is still
  returned (never raises) but is flagged as non-converged". The cap is a parameter; the
  result is the tree, the audit trail and the convergence flag.
\<close>

fun resolveOverlaps_from ::
  "nat \<Rightarrow> real \<Rightarrow> node \<Rightarrow> adjustment list \<Rightarrow> node \<times> adjustment list \<times> bool" where
  "resolveOverlaps_from 0 minGap rootNode trail = (rootNode, trail, False)"
| "resolveOverlaps_from (Suc cap) minGap rootNode trail =
     (case detection_pass minGap rootNode of
        (rootNode', adjustments) \<Rightarrow>
          if adjustments = [] then (rootNode', trail, True)
          else resolveOverlaps_from cap minGap rootNode' (trail @ adjustments))"

text \<open>Modelled from the spec: \<open>resolveOverlaps\<close>, starting with an empty audit trail.\<close>

definition resolveOverlaps :: "nat \<Rightarrow> real \<Rightarrow> node \<Rightarrow> node \<times> adjustment list \<times> bool" where
  "resolveOverlaps cap minGap rootNode = resolveOverlaps_from cap minGap rootNode []"

text \<open>
  \<open>clear_of minGap t p q\<close>: the nodes at the paths \<open>p\<close> and \<open>q\<close> of the tree \<open>t\<close> do not
  overlap under the minimum gap.
\<close>

definition clear_of :: "real \<Rightarrow> node \<Rightarrow> nat list \<Rightarrow> nat list \<Rightarrow> bool" where
  "clear_of g t p q =
     (\<forall>a b. node_at t p = Some a \<and> node_at t q = Some b
        \<longrightarrow> \<not> isOverlapping (center a) (nodeHeight a) (center b) (nodeHeight b) g)"

section \<open>Splitting and joining\<close>

lemma js_split_not_Nil: "js_split sep s \<noteq> []"
  by (induction s) (auto split: list.splits)

lemma js_join_Cons: "ws \<noteq> [] \<Longrightarrow> js_join sep (w # ws) = w @ sep @ js_join sep ws"
  by (cases ws) auto

lemma js_join_js_split: "js_join [sep] (js_split sep s) = s"
proof (induction s)
  case Nil
  show ?case by simp
next
  case (Cons c cs)
  show ?case
  proof (cases "c = sep")
    case True
    with Cons show ?thesis by (simp add: js_join_Cons js_split_not_Nil)
  next
    case False
    obtain w ws where sp: "js_split sep cs = w # ws"
      using js_split_not_Nil [of sep cs] by (cases "js_split sep cs") auto
    have "js_join [sep] ((c # w) # ws) = c # js_join [sep] (w # ws)"
      by (cases ws) auto
    with Cons False sp show ?thesis by simp
  qed
qed

lemma js_split_no_sep: "w \<in> set (js_split sep s) \<Longrightarrow> sep \<notin> set w"
proof (induction s arbitrary: w)
  case Nil
  then show ?case by simp
next
  case (Cons c cs)
  then show ?case
    by (cases "js_split sep cs") (auto split: if_splits)
qed

lemma js_split_no_sep_id: "sep \<notin> set s \<Longrightarrow> js_split sep s = [s]"
  by (induction s) auto

section \<open>Association lists as maps\<close>

lemma fold_delete_all: "fst ` set al \<subseteq> set ks \<Longrightarrow> fold AList.delete ks al = []"
proof (induction ks arbitrary: al)
  case Nil
  then show ?case by simp
next
  case (Cons k ks)
  have "fst ` set (AList.delete k al) \<subseteq> set ks"
    using Cons.prems by (auto simp: AList.delete_eq)
  then show ?case using Cons.IH by simp
qed

lemma map_of_fold_delete:
  "map_of (fold AList.delete ks al) k = (if k \<in> set ks then None else map_of al k)"
  by (induction ks arbitrary: al) (auto simp: AList.delete_conv')

lemma set_fold_delete: "set (fold AList.delete ks al) \<subseteq> set al"
proof (induction ks arbitrary: al)
  case Nil
  show ?case by simp
next
  case (Cons k ks)
  have "set (fold AList.delete ks (AList.delete k al)) \<subseteq> set (AList.delete k al)"
    by (rule Cons.IH)
  also have "\<dots> \<subseteq> set al" by (auto simp: AList.delete_eq)
  finally show ?case by simp
qed

lemma set_update_subset: "set (AList.update k v al) \<subseteq> insert (k, v) (set al)"
  by (induction al) auto

lemma map_of_delete_filter:
  "map_of (fold AList.delete (filter P (map fst al)) al) k =
     (if P k then None else map_of al k)"
proof (cases "P k")
  case False
  then show ?thesis by (simp add: map_of_fold_delete)
next
  case True
  show ?thesis
  proof (cases "k \<in> fst ` set al")
    case True
    with \<open>P k\<close> show ?thesis by (simp add: map_of_fold_delete)
  next
    case False
    then have "map_of al k = None" by (simp add: map_of_eq_None_iff)
    with \<open>P k\<close> show ?thesis by (simp add: map_of_fold_delete)
  qed
qed

lemma js_includes_Nil: "js_includes key []"
  by (induction key) auto

lemma js_includes_sublist: "js_includes key text' = sublist text' key"
  by (induction key) (auto simp: sublist_Cons_right)

section \<open>Decimal rendering and cache keys\<close>

lemma lt10_cases: "(n::nat) < 10 \<Longrightarrow> n \<in> {0,1,2,3,4,5,6,7,8,9}"
  by auto

lemma digit_char_is_digit: "is_digit (digit_char d)"
proof -
  have "d mod 10 \<in> {0,1,2,3,4,5,6,7,8,9}" by (rule lt10_cases) simp
  then show ?thesis by (auto simp: digit_char_def is_digit_def)
qed

lemma digit_val_digit_char: "digit_val (digit_char d) = d mod 10"
proof -
  have "d mod 10 \<in> {0,1,2,3,4,5,6,7,8,9}" by (rule lt10_cases) simp
  then show ?thesis by (auto simp: digit_char_def digit_val_def)
qed

lemma string_of_nat_digits: "c \<in> set (string_of_nat n) \<Longrightarrow> is_digit c"
proof (induction n rule: string_of_nat.induct)
  case (1 n)
  then show ?case
    by (subst (asm) (2) string_of_nat.simps) (auto simp: digit_char_is_digit split: if_splits)
qed

lemma dash_not_digit: "\<not> is_digit CHR ''-''"
  by (simp add: is_digit_def)

lemma string_of_nat_no_dash: "CHR ''-'' \<notin> set (string_of_nat n)"
  using string_of_nat_digits dash_not_digit by blast

lemma decimal_value_string_of_nat:
  "foldl (\<lambda>a c. 10 * a + digit_val c) 0 (string_of_nat n) = n"
proof (induction n rule: string_of_nat.induct)
  case (1 n)
  show ?case
  proof (cases "n < 10")
    case True
    then show ?thesis
      by (subst string_of_nat.simps) (simp add: digit_val_digit_char)
  next
    case False
    with 1 have "foldl (\<lambda>a c. 10 * a + digit_val c) 0 (string_of_nat (n div 10)) = n div 10"
      by simp
    with False show ?thesis
      by (subst string_of_nat.simps) (simp add: digit_val_digit_char)
  qed
qed

lemma string_of_nat_inj: "string_of_nat m = string_of_nat n \<Longrightarrow> m = n"
  by (metis decimal_value_string_of_nat)

lemma takeWhile_sep: "c \<notin> set a \<Longrightarrow> takeWhile (\<lambda>x. x \<noteq> c) (a @ c # r) = a"
  by (induction a) auto

lemma sep_split_unique:
  assumes "c \<notin> set a" "c \<notin> set a'" "a @ c # r = a' @ c # r'"
  shows "a = a' \<and> r = r'"
proof -
  have "takeWhile (\<lambda>x. x \<noteq> c) (a @ c # r) = takeWhile (\<lambda>x. x \<noteq> c) (a' @ c # r')"
    using assms(3) by simp
  then have "a = a'" using assms(1,2) by (simp add: takeWhile_sep)
  with assms(3) show ?thesis by simp
qed

lemma sep_split_unique_right:
  assumes "c \<notin> set b" "c \<notin> set b'" "t @ c # b = t' @ c # b'"
  shows "t = t' \<and> b = b'"
proof -
  have "rev (t @ c # b) = rev (t' @ c # b')" using assms(3) by simp
  then have e: "rev b @ c # rev t = rev b' @ c # rev t'" by simp
  have "c \<notin> set (rev b)" "c \<notin> set (rev b')" using assms(1,2) by simp_all
  from sep_split_unique [OF this e] show ?thesis by simp
qed

lemma nodeCacheKey_inj:
  assumes "nodeCacheKey depth t = nodeCacheKey depth' t'"
  shows "depth = depth' \<and> t = t'"
proof -
  let ?d = "CHR ''-''"
  from assms have e: "string_of_nat depth @ ?d # (t @ ?d # string_of_nat (length t))
                    = string_of_nat depth' @ ?d # (t' @ ?d # string_of_nat (length t'))"
    by (simp add: nodeCacheKey_def)
  from sep_split_unique [OF string_of_nat_no_dash string_of_nat_no_dash e]
  have d: "string_of_nat depth = string_of_nat depth'"
    and r: "t @ ?d # string_of_nat (length t) = t' @ ?d # string_of_nat (length t')"
    by simp_all
  from sep_split_unique_right [OF string_of_nat_no_dash string_of_nat_no_dash r]
  have "t = t'" by simp
  with d show ?thesis by (simp add: string_of_nat_inj)
qed

lemma parseInt_getFontSizeByDepth:
  "parseInt (getFontSizeByDepth depth) = Some (depthFontSize depth)"
  by (simp add: parseInt_def getFontSizeByDepth_def ROOT_FONT_SIZE_def LEVEL_1_FONT_SIZE_def
      DEFAULT_FONT_SIZE_def is_digit_def digit_val_def depthFontSize_def)

section \<open>The measuring methods and the node cache\<close>

lemma initialize_nodeCache:
  "nodeDimensionsCache (snd (initializeTextMeasurementElement doc this)) = nodeDimensionsCache this"
  by (simp add: initializeTextMeasurementElement_def Let_def split: document.splits option.splits)

lemma initialize_textCache:
  "textMeasurementCache (snd (initializeTextMeasurementElement doc this)) = textMeasurementCache this"
  by (simp add: initializeTextMeasurementElement_def Let_def split: document.splits option.splits)


lemma initialize_can_measure:
  "can_measure doc this
   \<Longrightarrow> \<exists>this1. initializeTextMeasurementElement doc this = (Inr (), this1)
              \<and> textMeasurementElement this1 \<noteq> None"
  by (auto simp: initializeTextMeasurementElement_def can_measure_def Let_def
      split: document.splits option.splits)

lemma measureTextAccurately_nodeCache:
  "nodeDimensionsCache (snd (measureTextAccurately doc t fs fw this)) = nodeDimensionsCache this"
proof -
  obtain r this1 where i: "initializeTextMeasurementElement doc this = (r, this1)"
    by (cases "initializeTextMeasurementElement doc this")
  with initialize_nodeCache [of doc this]
  have "nodeDimensionsCache this1 = nodeDimensionsCache this" by simp
  with i show ?thesis
    by (simp add: measureTextAccurately_def Let_def split: option.splits sum.splits)
qed

lemma measureTextAccurately_can_measure:
  assumes "can_measure doc this"
  shows "\<exists>m this1. measureTextAccurately doc t fs fw this = (Inr m, this1)
           \<and> can_measure doc this1"
proof (cases "map_of (textMeasurementCache this) (t @ ''-'' @ string_of_nat fs @ ''-'' @ fw)")
  case (Some cached)
  with assms show ?thesis by (simp add: measureTextAccurately_def)
next
  case None
  from initialize_can_measure [OF assms]
  obtain this1 where i: "initializeTextMeasurementElement doc this = (Inr (), this1)"
    and e: "textMeasurementElement this1 \<noteq> None"
    by blast
  from e obtain el where el: "textMeasurementElement this1 = Some el" by blast
  with None i show ?thesis
    by (simp add: measureTextAccurately_def Let_def can_measure_def)
qed


lemma measureLines_nodeCache:
  "nodeDimensionsCache (snd (measureLines doc fs fw ls mw this)) = nodeDimensionsCache this"
proof (induction ls arbitrary: mw this)
  case Nil
  show ?case by simp
next
  case (Cons l ls)
  obtain r this1 where m: "measureTextAccurately doc l fs fw this = (r, this1)"
    by (cases "measureTextAccurately doc l fs fw this")
  have c: "nodeDimensionsCache this1 = nodeDimensionsCache this"
    using measureTextAccurately_nodeCache [of doc l fs fw this] m by simp
  show ?case
  proof (cases r)
    case (Inl e)
    with m c show ?thesis by simp
  next
    case (Inr x)
    with m c Cons.IH [of _ this1] show ?thesis by simp
  qed
qed

lemma measureLines_can_measure:
  "can_measure doc this
   \<Longrightarrow> \<exists>w this1. measureLines doc fs fw ls mw this = (Inr w, this1)"
proof (induction ls arbitrary: mw this)
  case Nil
  show ?case by simp
next
  case (Cons l ls)
  from measureTextAccurately_can_measure [OF Cons.prems, of l fs fw]
  obtain m this1 where m: "measureTextAccurately doc l fs fw this = (Inr m, this1)"
    and c: "can_measure doc this1"
    by blast
  from Cons.IH [OF c] m show ?case by simp
qed

lemma measureTextSize_returns:
  assumes "ls \<noteq> []" and "measureLines doc fs fw ls 0 this = (Inr mw, this1)"
  shows "measureTextSize doc ls fs fw this =
           (Inr (real_of_int \<lceil>max mw 35\<rceil>, real_of_int \<lceil>real (length ls) * (real fs * 1.3)\<rceil>),
            this1)"
  using assms by (simp add: measureTextSize_def Let_def)

lemma measureTextSize_throws:
  assumes "ls \<noteq> []" and "measureLines doc fs fw ls 0 this = (Inl e, this1)"
  shows "measureTextSize doc ls fs fw this = (Inl e, this1)"
  using assms by (simp add: measureTextSize_def Let_def)

lemma measureTextSize_nodeCache:
  "nodeDimensionsCache (snd (measureTextSize doc ls fs fw this)) = nodeDimensionsCache this"
proof (cases "ls = []")
  case True
  then show ?thesis by (simp add: measureTextSize_def)
next
  case False
  obtain r this1 where m: "measureLines doc fs fw ls 0 this = (r, this1)"
    by (cases "measureLines doc fs fw ls 0 this")
  have c: "nodeDimensionsCache this1 = nodeDimensionsCache this"
    using measureLines_nodeCache [of doc fs fw ls 0 this] m by simp
  show ?thesis
  proof (cases r)
    case (Inl e)
    with False m c show ?thesis by (simp add: measureTextSize_throws)
  next
    case (Inr mw)
    with False m c show ?thesis by (simp add: measureTextSize_returns)
  qed
qed

lemma measureTextSize_result:
  assumes "ls \<noteq> []" and "measureTextSize doc ls fs fw this = (Inr textSize, this1)"
  shows "\<exists>mw. measureLines doc fs fw ls 0 this = (Inr mw, this1)
           \<and> textSize = (real_of_int \<lceil>max mw 35\<rceil>,
                          real_of_int \<lceil>real (length ls) * (real fs * 1.3)\<rceil>)"
proof -
  obtain r this2 where m: "measureLines doc fs fw ls 0 this = (r, this2)"
    by (cases "measureLines doc fs fw ls 0 this")
  show ?thesis
  proof (cases r)
    case (Inl e)
    with assms m measureTextSize_throws [of ls doc fs fw this e this2] show ?thesis by simp
  next
    case (Inr mw)
    with assms m measureTextSize_returns [of ls doc fs fw this mw this2] show ?thesis by simp
  qed
qed

lemma wrapText_not_Nil: "wrapText t mw fs \<noteq> []"
proof (cases mw)
  case None
  then show ?thesis by (simp add: wrapText_def js_split_not_Nil)
next
  case (Some w)
  then show ?thesis
    by (simp add: wrapText_def Let_def split: prod.splits)
qed

lemma getNodeDimensions_hit:
  "map_of (nodeDimensionsCache this) (nodeCacheKey depth t) = Some d
   \<Longrightarrow> getNodeDimensions clean doc depth t this = Some (Inr d, this)"
  by (simp add: getNodeDimensions_def)

lemma getNodeDimensions_miss:
  assumes miss: "map_of (nodeDimensionsCache this) (nodeCacheKey depth t) = None"
  shows "getNodeDimensions clean doc depth t this =
     (case measureTextSize doc (wrapText (clean t) None (real (depthFontSize depth)))
             (depthFontSize depth) (depthFontWeight depth) this of
        (Inl e, this1) \<Rightarrow> Some (Inl e, this1)
      | (Inr textSize, this1) \<Rightarrow>
          Some (Inr (boxOf depth (wrapText (clean t) None (real (depthFontSize depth))) textSize),
                this1\<lparr>nodeDimensionsCache :=
                   AList.update (nodeCacheKey depth t)
                     (boxOf depth (wrapText (clean t) None (real (depthFontSize depth))) textSize)
                     (nodeDimensionsCache this1)\<rparr>))"
proof -
  consider "depth = 0" | "depth = 1" | "depth \<noteq> 0 \<and> depth \<noteq> 1" by blast
  then show ?thesis
  proof cases
    case 1
    with miss show ?thesis
      by (simp add: getNodeDimensions_def parseInt_getFontSizeByDepth Let_def boxOf_def
          depthMinWidth_def depthPadding_def depthFontWeight_def split: prod.splits sum.splits)
  next
    case 2
    with miss show ?thesis
      by (simp add: getNodeDimensions_def parseInt_getFontSizeByDepth Let_def boxOf_def
          depthMinWidth_def depthPadding_def depthFontWeight_def split: prod.splits sum.splits)
  next
    case 3
    with miss show ?thesis
      by (simp add: getNodeDimensions_def parseInt_getFontSizeByDepth Let_def boxOf_def
          depthMinWidth_def depthPadding_def depthFontWeight_def split: prod.splits sum.splits)
  qed
qed

section \<open>The cache invariant is kept\<close>

lemma cache_ok_new: "cache_ok clean new_TextMeasurer"
  by (simp add: cache_ok_def new_TextMeasurer_def)

lemma cache_ok_same:
  "cache_ok clean this \<Longrightarrow> nodeDimensionsCache this1 = nodeDimensionsCache this
   \<Longrightarrow> cache_ok clean this1"
  by (simp add: cache_ok_def)

lemma getNodeDimensions_ok:
  assumes "cache_ok clean this"
  shows "\<exists>r this'. getNodeDimensions clean doc depth t this = Some (r, this')
           \<and> cache_ok clean this'
           \<and> (\<forall>d. r = Inr d \<longrightarrow> dims_ok clean depth t d)"
proof (cases "map_of (nodeDimensionsCache this) (nodeCacheKey depth t)")
  case None
  let ?fs = "depthFontSize depth"
  let ?ls = "wrapText (clean t) None (real ?fs)"
  obtain r this1 where m: "measureTextSize doc ?ls ?fs (depthFontWeight depth) this = (r, this1)"
    by (cases "measureTextSize doc ?ls ?fs (depthFontWeight depth) this")
  have c: "nodeDimensionsCache this1 = nodeDimensionsCache this"
    using measureTextSize_nodeCache [of doc ?ls ?fs "depthFontWeight depth" this] m by simp
  show ?thesis
  proof (cases r)
    case (Inl e)
    with m have "getNodeDimensions clean doc depth t this = Some (Inl e, this1)"
      by (simp add: getNodeDimensions_miss [OF None])
    moreover have "cache_ok clean this1" using assms c by (rule cache_ok_same)
    ultimately show ?thesis by simp
  next
    case (Inr textSize)
    let ?d = "boxOf depth ?ls textSize"
    let ?this' = "this1\<lparr>nodeDimensionsCache :=
                     AList.update (nodeCacheKey depth t) ?d (nodeDimensionsCache this1)\<rparr>"
    from Inr m have g: "getNodeDimensions clean doc depth t this = Some (Inr ?d, ?this')"
      by (simp add: getNodeDimensions_miss [OF None])
    from measureTextSize_result [OF wrapText_not_Nil] m Inr
    obtain mw :: real where "textSize = (real_of_int \<lceil>max mw 35\<rceil>,
                          real_of_int \<lceil>real (length ?ls) * (real ?fs * 1.3)\<rceil>)"
      by blast
    then have d: "dims_ok clean depth t ?d" unfolding dims_ok_def by blast
    have "cache_ok clean ?this'"
      unfolding cache_ok_def
    proof (clarify)
      fix k e assume "(k, e) \<in> set (nodeDimensionsCache ?this')"
      then have "(k, e) = (nodeCacheKey depth t, ?d) \<or> (k, e) \<in> set (nodeDimensionsCache this)"
        using c set_update_subset [of "nodeCacheKey depth t" ?d "nodeDimensionsCache this"] by auto
      then show "\<exists>depth' t'. k = nodeCacheKey depth' t' \<and> dims_ok clean depth' t' e"
        using d assms unfolding cache_ok_def by auto
    qed
    with g d show ?thesis by simp
  qed
next
  case (Some d)
  then have "(nodeCacheKey depth t, d) \<in> set (nodeDimensionsCache this)"
    by (rule map_of_SomeD)
  with assms obtain depth' t' where "nodeCacheKey depth t = nodeCacheKey depth' t'"
    and "dims_ok clean depth' t' d"
    unfolding cache_ok_def by blast
  then have "dims_ok clean depth t d"
    using nodeCacheKey_inj by blast
  with getNodeDimensions_hit [OF Some] assms show ?thesis by simp
qed

lemma getNodeDimensions_can_measure:
  assumes "can_measure doc this"
  shows "\<exists>d this'. getNodeDimensions clean doc depth t this = Some (Inr d, this')"
proof (cases "map_of (nodeDimensionsCache this) (nodeCacheKey depth t)")
  case None
  let ?fs = "depthFontSize depth"
  let ?ls = "wrapText (clean t) None (real ?fs)"
  from measureLines_can_measure [OF assms, of ?fs "depthFontWeight depth" ?ls 0]
  obtain w this1 where "measureLines doc ?fs (depthFontWeight depth) ?ls 0 this = (Inr w, this1)"
    by blast
  from measureTextSize_returns [OF wrapText_not_Nil this]
  show ?thesis by (simp add: getNodeDimensions_miss [OF None])
next
  case (Some d)
  from getNodeDimensions_hit [OF this] show ?thesis by blast
qed


lemma clear_cache_ok:
  assumes "cache_ok clean this"
  shows "cache_ok clean (clearNodeDimensionsCacheForText u this)"
proof -
  have "set (nodeDimensionsCache (clearNodeDimensionsCacheForText u this))
          \<subseteq> set (nodeDimensionsCache this)"
    by (simp add: clearNodeDimensionsCacheForText_def Let_def set_fold_delete)
  with assms show ?thesis unfolding cache_ok_def by blast
qed

lemma measureTextAccurately_cache_ok:
  "cache_ok clean this \<Longrightarrow> cache_ok clean (snd (measureTextAccurately doc t fs fw this))"
  by (simp add: cache_ok_def measureTextAccurately_nodeCache)

lemma measureTextSize_cache_ok:
  "cache_ok clean this \<Longrightarrow> cache_ok clean (snd (measureTextSize doc ls fs fw this))"
  by (simp add: cache_ok_def measureTextSize_nodeCache)

lemma destroy_cache_ok: "cache_ok clean (destroy this)"
  by (simp add: cache_ok_def destroy_def)

lemma reachable_cache_ok: "reachable clean this \<Longrightarrow> cache_ok clean this"
proof (induction rule: reachable.induct)
  case reachable_new
  show ?case by (rule cache_ok_new)
next
  case (reachable_getNodeDimensions this document depth t r this')
  with getNodeDimensions_ok [of clean this document depth t] show ?case by auto
next
  case (reachable_clear this t)
  then show ?case by (simp add: clear_cache_ok)
next
  case (reachable_measureTextAccurately this document t fs fw)
  then show ?case by (simp add: measureTextAccurately_cache_ok)
next
  case (reachable_measureTextSize this document ls fs fw)
  then show ?case by (simp add: measureTextSize_cache_ok)
next
  case (reachable_destroy this)
  show ?case by (rule destroy_cache_ok)
qed

section \<open>Detection passes\<close>

lemma isOverlapping_sym:
  "isOverlapping c1 h1 c2 h2 g = isOverlapping c2 h2 c1 h1 g"
  by (auto simp: isOverlapping_def Let_def)

lemma pairs_complete:
  "x \<in> set xs \<Longrightarrow> y \<in> set xs \<Longrightarrow> x \<noteq> y \<Longrightarrow> (x, y) \<in> set (pairs xs) \<or> (y, x) \<in> set (pairs xs)"
  by (induction xs) auto

lemma node_at_preorder:
  "p \<in> set (preorder t) \<Longrightarrow> \<exists>n. node_at t p = Some n"
  "p \<in> set (preorder_from i ts) \<Longrightarrow>
     \<exists>j r n. p = j # r \<and> i \<le> j \<and> j - i < length ts \<and> node_at (ts ! (j - i)) r = Some n"
proof (induction t and i ts arbitrary: p and p rule: preorder_preorder_from.induct)
  case (1 c h cs)
  show ?case
  proof (cases p)
    case Nil
    then show ?thesis by simp
  next
    case (Cons j r)
    with 1 show ?thesis by fastforce
  qed
next
  case (2 i)
  then show ?case by simp
next
  case (3 i n ns)
  from "3.prems" consider "p \<in> (#) i ` set (preorder n)" | "p \<in> set (preorder_from (Suc i) ns)"
    by auto
  then show ?case
  proof cases
    case 1
    then obtain r where "p = i # r" "r \<in> set (preorder n)" by blast
    with "3.IH"(1) show ?thesis by fastforce
  next
    case 2
    with "3.IH"(2) obtain j r m where "p = j # r" "Suc i \<le> j" "j - Suc i < length ns"
      "node_at (ns ! (j - Suc i)) r = Some m"
      by blast
    moreover from this have "(n # ns) ! (j - i) = ns ! (j - Suc i)" 
      by (metis Suc_diff_Suc Suc_le_lessD nth_Cons_Suc)
    ultimately show ?thesis by (intro exI [of _ j] exI [of _ r] exI [of _ m]) auto
  qed
qed

lemma resolve_pair_quiet:
  assumes "snd (resolve_pair g (p, q) (t, adj)) = []"
  shows "adj = [] \<and> resolve_pair g (p, q) (t, adj) = (t, adj) \<and> clear_of g t p q"
  using assms
  by (auto simp: resolve_pair_def clear_of_def Let_def split: option.splits if_splits)

lemma fold_resolve_pair_quiet:
  assumes "snd (fold (resolve_pair g) xs (t, adj)) = []"
  shows "adj = [] \<and> fold (resolve_pair g) xs (t, adj) = (t, [])
         \<and> (\<forall>(p, q) \<in> set xs. clear_of g t p q)"
  using assms
proof (induction xs arbitrary: t adj)
  case Nil
  then show ?case by simp
next
  case (Cons x xs)
  obtain p q where x: "x = (p, q)" by (cases x)
  obtain t1 adj1 where s: "resolve_pair g (p, q) (t, adj) = (t1, adj1)"
    by (cases "resolve_pair g (p, q) (t, adj)")
  from Cons.prems x s have "snd (fold (resolve_pair g) xs (t1, adj1)) = []" by simp
  from Cons.IH [OF this]
  have a1: "adj1 = []" and f: "fold (resolve_pair g) xs (t1, adj1) = (t1, [])"
    and c: "\<forall>(p, q) \<in> set xs. clear_of g t1 p q"
    by blast+
  from resolve_pair_quiet [of g p q t adj] s a1
  have "adj = []" "t1 = t" "clear_of g t p q" by simp_all
  with x s a1 f c show ?case by simp
qed

lemma detection_pass_quiet:
  assumes "detection_pass g t = (t', [])"
  shows "t' = t \<and> (\<forall>(p, q) \<in> set (candidates t). clear_of g t p q)"
  using fold_resolve_pair_quiet [of g "candidates t" t "[]"] assms
  by (simp add: detection_pass_def)

lemma resolveOverlaps_from_converged:
  assumes "resolveOverlaps_from cap g t trail = (t', adj, True)"
  shows "detection_pass g t' = (t', [])"
  using assms
proof (induction cap arbitrary: t trail)
  case 0
  then show ?case by simp
next
  case (Suc cap)
  obtain t1 a1 where p: "detection_pass g t = (t1, a1)"
    by (cases "detection_pass g t")
  show ?case
  proof (cases "a1 = []")
    case True
    with Suc.prems p have "t' = t1" by simp
    moreover from detection_pass_quiet [of g t t1] p True have "t1 = t" by simp
    ultimately show ?thesis using p True by simp
  next
    case False
    with Suc.prems p have "resolveOverlaps_from cap g t1 (trail @ a1) = (t', adj, True)"
      by simp
    then show ?thesis by (rule Suc.IH)
  qed
qed

section \<open>Evaluation at concrete inputs\<close>

lemmas eval_simps = getNodeDimensions_def nodeCacheKey_def string_of_nat.simps digit_char_def
  new_TextMeasurer_def parseInt_def getFontSizeByDepth_def ROOT_FONT_SIZE_def LEVEL_1_FONT_SIZE_def
  DEFAULT_FONT_SIZE_def is_digit_def digit_val_def wrapText_def measureTextSize_def
  measureTextAccurately_def initializeTextMeasurementElement_def Let_def

lemma js_includes_key: "js_includes (nodeCacheKey depth u) u"
proof -
  have "nodeCacheKey depth u =
          (string_of_nat depth @ ''-'') @ u @ (''-'' @ string_of_nat (length u))"
    by (simp add: nodeCacheKey_def)
  then show ?thesis unfolding js_includes_sublist sublist_def by blast
qed

section \<open>The word loop keeps words whole\<close>

lemma js_join_snoc: "ws \<noteq> [] \<Longrightarrow> js_join sep (ws @ [w]) = js_join sep ws @ sep @ w"
  by (induction sep ws rule: js_join.induct) auto

lemma suffix_whole_words:
  "run \<noteq> [] \<Longrightarrow> suffix run done' \<Longrightarrow> whole_words (done' @ rest) (js_join '' '' run)"
  unfolding whole_words_def suffix_def sublist_def by (metis append_assoc)

lemma wrapLoop_inv:
  assumes "\<forall>l \<in> set pushed. whole_words (done' @ rest) l"
    and "cur = [] \<or> (\<exists>run. run \<noteq> [] \<and> suffix run done' \<and> cur = js_join '' '' run)"
    and "pushed = [] \<and> cur = [] \<longrightarrow> (\<forall>w \<in> set done'. w = [])"
    and "wrapLoop mc rest pushed cur = (pushed', cur')"
  shows "(\<forall>l \<in> set pushed'. whole_words (done' @ rest) l)
       \<and> (cur' = [] \<or> (\<exists>run. run \<noteq> [] \<and> suffix run (done' @ rest) \<and> cur' = js_join '' '' run))
       \<and> (pushed' = [] \<and> cur' = [] \<longrightarrow> (\<forall>w \<in> set (done' @ rest). w = []))"
  using assms
proof (induction rest arbitrary: done' pushed cur)
  case Nil
  then show ?case by simp
next
  case (Cons word rest)
  let ?test = "if cur \<noteq> [] then cur @ '' '' @ word else word"
  have all: "done' @ word # rest = (done' @ [word]) @ rest" by simp
  have test: "\<exists>run. run \<noteq> [] \<and> suffix run (done' @ [word]) \<and> ?test = js_join '' '' run"
  proof (cases "cur = []")
    case True
    have "suffix [word] (done' @ [word])" by (simp add: suffix_def)
    with True show ?thesis by (intro exI [of _ "[word]"]) simp
  next
    case False
    with Cons.prems(2) obtain run where run: "run \<noteq> []" "suffix run done'" "cur = js_join '' '' run"
      by blast
    then have "suffix (run @ [word]) (done' @ [word])" by simp
    with run False show ?thesis
      by (intro exI [of _ "run @ [word]"]) (simp add: js_join_snoc)
  qed
  have single: "\<exists>run. run \<noteq> [] \<and> suffix run (done' @ [word]) \<and> word = js_join '' '' run"
  proof (intro exI [of _ "[word]"] conjI)
    show "suffix [word] (done' @ [word])" by (simp add: suffix_def)
  qed simp_all
  show ?case
  proof (cases "len_le (length ?test) mc")
    case True
    with Cons.prems(4) have loop: "wrapLoop mc rest pushed ?test = (pushed', cur')"
      by (simp add: Let_def)
    have p1: "\<forall>l \<in> set pushed. whole_words ((done' @ [word]) @ rest) l"
      using Cons.prems(1) by simp
    have p3: "pushed = [] \<and> ?test = [] \<longrightarrow> (\<forall>w \<in> set (done' @ [word]). w = [])"
      using Cons.prems(3) by (auto split: if_splits)
    from Cons.IH [OF p1 _ p3 loop] test show ?thesis unfolding all by blast
  next
    case False
    let ?pushed = "if cur \<noteq> [] then pushed @ [cur] else pushed"
    from False Cons.prems(4) have loop: "wrapLoop mc rest ?pushed word = (pushed', cur')"
      by (simp add: Let_def)
    have p1: "\<forall>l \<in> set ?pushed. whole_words ((done' @ [word]) @ rest) l"
    proof (cases "cur = []")
      case True
      with Cons.prems(1) show ?thesis by simp
    next
      case False
      with Cons.prems(2) obtain run where run: "run \<noteq> []" "suffix run done'" "cur = js_join '' '' run"
        by blast
      from suffix_whole_words [OF run(1,2), of "word # rest"] run(3)
      have "whole_words ((done' @ [word]) @ rest) cur" by simp
      with Cons.prems(1) False show ?thesis by simp
    qed
    have p3: "?pushed = [] \<and> word = [] \<longrightarrow> (\<forall>w \<in> set (done' @ [word]). w = [])"
      using Cons.prems(3) by (auto split: if_splits)
    from Cons.IH [OF p1 _ p3 loop] single show ?thesis unfolding all by blast
  qed
qed

lemma js_join_replicate_empty: "js_join [c] (replicate (Suc m) []) = replicate m c"
  by (induction m) simp_all

lemma blank_substring:
  assumes "\<forall>w \<in> set (js_split (CHR '' '') t). w = []"
  shows "whole_words (js_split (CHR '' '') t) (substring0 t mc)"
proof -
  let ?words = "js_split (CHR '' '') t"
  obtain m where n: "length ?words = Suc m"
    using js_split_not_Nil [of "CHR '' ''" t] by (cases ?words) auto
  have "replicate (length ?words) [] = ?words"
    using assms by (intro replicate_length_same) blast
  with n have words: "?words = replicate (Suc m) []" by simp
  have "js_join '' '' ?words = t" by (rule js_join_js_split)
  then have t: "t = replicate m (CHR '' '')"
    unfolding words js_join_replicate_empty by simp
  obtain k where "substring0 t mc = take k t"
  proof (cases mc)
    case (Fin i)
    with that [of "nat i"] show ?thesis by simp
  next
    case PosInf
    with that [of "length t"] show ?thesis by simp
  next
    case NegInf
    with that [of 0] show ?thesis by simp
  next
    case NaN
    with that [of 0] show ?thesis by simp
  qed
  then have "substring0 t mc = take k (replicate m (CHR '' ''))" using t by simp
  then have sub: "substring0 t mc = replicate (min k m) (CHR '' '')" by simp
  let ?ws = "replicate (Suc (min k m)) ([] :: string)"
  have "Suc m = Suc (min k m) + (m - min k m)" by arith
  then have "replicate (Suc m) ([] :: string) = replicate (Suc (min k m) + (m - min k m)) []"
    by (rule arg_cong)
  also have "\<dots> = ?ws @ replicate (m - min k m) []" by (rule replicate_add)
  finally have "prefix ?ws (replicate (Suc m) [])" by (rule prefixI)
  then have "sublist ?ws ?words"
    unfolding words by (rule prefix_imp_sublist)
  moreover have "substring0 t mc = js_join '' '' ?ws"
    unfolding sub js_join_replicate_empty ..
  moreover have "?ws \<noteq> []" by simp
  ultimately show ?thesis unfolding whole_words_def by blast
qed

section \<open>Coordinate converter: properties\<close>

text \<open>
  C2. For all real inputs, \<open>isOverlapping\<close> is the negation of
  "node 1 ends at least \<open>gap\<close> above node 2, or node 2 ends at least \<open>gap\<close> above node 1",
  with top = center - height/2 and bottom = center + height/2; two nodes that touch
  exactly with zero gap (centers 100 and 150, heights 50) do not overlap.
\<close>

theorem isOverlapping_spec:
  "isOverlapping center1 height1 center2 height2 gap =
     (\<not> ((center1 + height1 / 2) + gap \<le> center2 - height2 / 2
         \<or> (center2 + height2 / 2) + gap \<le> center1 - height1 / 2))
   \<and> isOverlapping 100 50 150 50 0 = False"
  by (simp add: isOverlapping_def Let_def)

text \<open>
  C3. Converting a layout center to the canvas top edge and back gives the center again,
  for every center, height and offset (over the reals).
\<close>

theorem toLayoutX_toCanvasY_roundtrip:
  "toLayoutX (toCanvasY c h off) h off = c"
  by (simp add: toLayoutX_def toCanvasY_def)

section \<open>Text measurer: properties\<close>

text \<open>
  C4. For every depth and every text, the empty text included, what \<open>getNodeDimensions\<close>
  returns has a width of at least the minimum width of the depth (40, 38 or 20) and a
  height of at least twice the font size of the depth, in every state of the measurer, on
  a fresh computation and on a cache hit alike; so neither is zero. It does return
  whenever the measurer has its element or the document creates one.
\<close>

theorem getNodeDimensions_min_size:
  assumes "reachable clean this"
  shows "(can_measure document this \<longrightarrow>
            (\<exists>d this'. getNodeDimensions clean document depth text this = Some (Inr d, this')))
         \<and> (getNodeDimensions clean document depth text this = Some (Inr d, this') \<longrightarrow>
              (\<exists>fs. parseInt (getFontSizeByDepth depth) = Some fs
                 \<and> minWidth d = (if depth = 0 then 40 else if depth = 1 then 38 else 20)
                 \<and> minWidth d \<le> width d
                 \<and> 2.0 * real fs \<le> height d
                 \<and> 0 < width d \<and> 0 < height d))"
proof (intro conjI impI)
  assume "can_measure document this"
  then show "\<exists>d this'. getNodeDimensions clean document depth text this = Some (Inr d, this')"
    by (rule getNodeDimensions_can_measure)
next
  assume r: "getNodeDimensions clean document depth text this = Some (Inr d, this')"
  from getNodeDimensions_ok [OF reachable_cache_ok [OF assms], of document depth "text"] r
  have "dims_ok clean depth text d" by simp
  then obtain ls ts where d: "d = boxOf depth ls ts"
    unfolding dims_ok_def by blast
  have mw: "minWidth d = depthMinWidth depth" and w: "minWidth d \<le> width d"
    and h: "real (depthFontSize depth) * 2 \<le> height d"
    unfolding d by (simp_all add: boxOf_def)
  have "0 < depthMinWidth depth" "0 < real (depthFontSize depth)"
    by (simp_all add: depthMinWidth_def depthFontSize_def)
  with mw w h have "0 < width d" "0 < height d" by simp_all
  with mw w h
  show "\<exists>fs. parseInt (getFontSizeByDepth depth) = Some fs
          \<and> minWidth d = (if depth = 0 then 40 else if depth = 1 then 38 else 20)
          \<and> minWidth d \<le> width d
          \<and> 2.0 * real fs \<le> height d
          \<and> 0 < width d \<and> 0 < height d"
    by (simp add: parseInt_getFontSizeByDepth) (simp add: depthMinWidth_def)
qed

theorem getNodeDimensions_min_size_witness:
  "reachable id
     \<lparr>textMeasurementElement = Some (\<lambda>t fs fw. (30, 24)),
        textMeasurementCache = [(''ab-20-bold'', 30, 24)],
        nodeDimensionsCache =
          [(''0-ab-2'',
            \<lparr>width = 79, height = 62, textX = 79 / 2, textY = 22, fontSize = ''20px'',
               fontWeight = ''bold'', lines = [''ab''], padding = 18, minWidth = 40,
               maxWidth = None\<rparr>)]\<rparr>
   \<and> can_measure NoDocument
     \<lparr>textMeasurementElement = Some (\<lambda>t fs fw. (30, 24)),
        textMeasurementCache = [(''ab-20-bold'', 30, 24)],
        nodeDimensionsCache =
          [(''0-ab-2'',
            \<lparr>width = 79, height = 62, textX = 79 / 2, textY = 22, fontSize = ''20px'',
               fontWeight = ''bold'', lines = [''ab''], padding = 18, minWidth = 40,
               maxWidth = None\<rparr>)]\<rparr>
   \<and> (\<exists>d this'.
         getNodeDimensions id NoDocument 2 []
           \<lparr>textMeasurementElement = Some (\<lambda>t fs fw. (30, 24)),
              textMeasurementCache = [(''ab-20-bold'', 30, 24)],
              nodeDimensionsCache =
                [(''0-ab-2'',
                  \<lparr>width = 79, height = 62, textX = 79 / 2, textY = 22, fontSize = ''20px'',
                     fontWeight = ''bold'', lines = [''ab''], padding = 18, minWidth = 40,
                     maxWidth = None\<rparr>)]\<rparr> = Some (Inr d, this')
         \<and> minWidth d = 20 \<and> minWidth d \<le> width d \<and> 2.0 * 15 \<le> height d
         \<and> 0 < width d \<and> 0 < height d)"
proof -
  let ?s = "\<lparr>textMeasurementElement = Some (\<lambda>t fs fw. (30, 24)),
        textMeasurementCache = [(''ab-20-bold'', 30, 24)],
        nodeDimensionsCache =
          [(''0-ab-2'',
            \<lparr>width = 79, height = 62, textX = 79 / 2, textY = 22, fontSize = ''20px'',
               fontWeight = ''bold'', lines = [''ab''], padding = 18, minWidth = 40,
               maxWidth = None\<rparr>)]\<rparr>"
  have "\<exists>r. getNodeDimensions id (Document (Some (\<lambda>t fs fw. (30, 24)))) 0 ''ab'' new_TextMeasurer
          = Some (r, ?s)"
    by (simp add: eval_simps)
  then have r: "reachable id ?s"
    using reachable_getNodeDimensions [OF reachable_new,
        of id "Document (Some (\<lambda>t fs fw. (30, 24)))" 0 "''ab''"] by blast
  have c: "can_measure NoDocument ?s" by (simp add: can_measure_def)
  from getNodeDimensions_min_size [OF r, of NoDocument 2 "[]"] c
  obtain d this' where g: "getNodeDimensions id NoDocument 2 [] ?s = Some (Inr d, this')"
    by blast
  have f: "parseInt (getFontSizeByDepth 2) = Some 15"
    by (simp add: parseInt_getFontSizeByDepth depthFontSize_def)
  from getNodeDimensions_min_size [OF r, of NoDocument 2 "[]" d this'] g f
  have "minWidth d = 20 \<and> minWidth d \<le> width d \<and> 2.0 * 15 \<le> height d
         \<and> 0 < width d \<and> 0 < height d"
    by simp
  with r c g show ?thesis by blast
qed

text \<open>
  C5, as stated: after dimensions for two distinct texts have been computed and cached,
  invalidating one leaves the entry of the other in the cache. This fails for the texts
  \<open>ab\<close> and \<open>a\<close>: invalidating \<open>a\<close> also deletes the entry under the key \<open>0-ab-2\<close>.
\<close>

theorem clear_removes_other_text:
  "''ab'' \<noteq> ''a''
   \<and> getNodeDimensions id (Document (Some (\<lambda>t fs fw. (30, 24)))) 0 ''ab'' new_TextMeasurer =
       Some (Inr \<lparr>width = 79, height = 62, textX = 79 / 2, textY = 22, fontSize = ''20px'',
                   fontWeight = ''bold'', lines = [''ab''], padding = 18, minWidth = 40,
                   maxWidth = None\<rparr>,
             \<lparr>textMeasurementElement = Some (\<lambda>t fs fw. (30, 24)),
                textMeasurementCache = [(''ab-20-bold'', 30, 24)],
                nodeDimensionsCache =
                  [(''0-ab-2'',
                    \<lparr>width = 79, height = 62, textX = 79 / 2, textY = 22, fontSize = ''20px'',
                       fontWeight = ''bold'', lines = [''ab''], padding = 18, minWidth = 40,
                       maxWidth = None\<rparr>)]\<rparr>)
   \<and> getNodeDimensions id (Document (Some (\<lambda>t fs fw. (30, 24)))) 0 ''a''
         \<lparr>textMeasurementElement = Some (\<lambda>t fs fw. (30, 24)),
            textMeasurementCache = [(''ab-20-bold'', 30, 24)],
            nodeDimensionsCache =
              [(''0-ab-2'',
                \<lparr>width = 79, height = 62, textX = 79 / 2, textY = 22, fontSize = ''20px'',
                   fontWeight = ''bold'', lines = [''ab''], padding = 18, minWidth = 40,
                   maxWidth = None\<rparr>)]\<rparr> =
       Some (Inr \<lparr>width = 79, height = 62, textX = 79 / 2, textY = 22, fontSize = ''20px'',
                   fontWeight = ''bold'', lines = [''a''], padding = 18, minWidth = 40,
                   maxWidth = None\<rparr>,
             \<lparr>textMeasurementElement = Some (\<lambda>t fs fw. (30, 24)),
                textMeasurementCache = [(''ab-20-bold'', 30, 24), (''a-20-bold'', 30, 24)],
                nodeDimensionsCache =
                  [(''0-ab-2'',
                    \<lparr>width = 79, height = 62, textX = 79 / 2, textY = 22, fontSize = ''20px'',
                       fontWeight = ''bold'', lines = [''ab''], padding = 18, minWidth = 40,
                       maxWidth = None\<rparr>),
                   (''0-a-1'',
                    \<lparr>width = 79, height = 62, textX = 79 / 2, textY = 22, fontSize = ''20px'',
                       fontWeight = ''bold'', lines = [''a''], padding = 18, minWidth = 40,
                       maxWidth = None\<rparr>)]\<rparr>)
   \<and> map_of (nodeDimensionsCache
        (clearNodeDimensionsCacheForText ''a''
           \<lparr>textMeasurementElement = Some (\<lambda>t fs fw. (30, 24)),
              textMeasurementCache = [(''ab-20-bold'', 30, 24), (''a-20-bold'', 30, 24)],
              nodeDimensionsCache =
                [(''0-ab-2'',
                  \<lparr>width = 79, height = 62, textX = 79 / 2, textY = 22, fontSize = ''20px'',
                     fontWeight = ''bold'', lines = [''ab''], padding = 18, minWidth = 40,
                     maxWidth = None\<rparr>),
                 (''0-a-1'',
                  \<lparr>width = 79, height = 62, textX = 79 / 2, textY = 22, fontSize = ''20px'',
                     fontWeight = ''bold'', lines = [''a''], padding = 18, minWidth = 40,
                     maxWidth = None\<rparr>)]\<rparr>))
        (nodeCacheKey 0 ''ab'') = None"
  by (simp add: eval_simps clearNodeDimensionsCacheForText_def)

text \<open>
  C5, amended. Invalidation deletes by substring of the cache key: after
  \<open>clearNodeDimensionsCacheForText u\<close>, every entry of either cache whose key contains \<open>u\<close>
  is gone, every entry whose key does not contain \<open>u\<close> is still there and unchanged, and
  the key of \<open>u\<close> itself, at any depth, contains \<open>u\<close>.
\<close>

theorem clear_by_substring:
  "(js_includes k u \<longrightarrow>
      map_of (nodeDimensionsCache (clearNodeDimensionsCacheForText u this)) k = None
      \<and> map_of (textMeasurementCache (clearNodeDimensionsCacheForText u this)) k = None)
   \<and> (\<not> js_includes k u \<longrightarrow>
      map_of (nodeDimensionsCache (clearNodeDimensionsCacheForText u this)) k
        = map_of (nodeDimensionsCache this) k
      \<and> map_of (textMeasurementCache (clearNodeDimensionsCacheForText u this)) k
        = map_of (textMeasurementCache this) k)
   \<and> js_includes (nodeCacheKey depth u) u"
  by (simp add: clearNodeDimensionsCacheForText_def Let_def map_of_delete_filter js_includes_key)

theorem clear_by_substring_witness:
  "js_includes ''0-z-1'' ''z''
   \<and> map_of (nodeDimensionsCache
        (clearNodeDimensionsCacheForText ''z''
           \<lparr>textMeasurementElement = None, textMeasurementCache = [],
              nodeDimensionsCache =
                [(''0-xy-2'',
                  \<lparr>width = 79, height = 62, textX = 79 / 2, textY = 22, fontSize = ''20px'',
                     fontWeight = ''bold'', lines = [''xy''], padding = 18, minWidth = 40,
                     maxWidth = None\<rparr>),
                 (''0-z-1'',
                  \<lparr>width = 79, height = 62, textX = 79 / 2, textY = 22, fontSize = ''20px'',
                     fontWeight = ''bold'', lines = [''z''], padding = 18, minWidth = 40,
                     maxWidth = None\<rparr>)]\<rparr>)) ''0-z-1'' = None
   \<and> \<not> js_includes ''0-xy-2'' ''z''
   \<and> map_of (nodeDimensionsCache
        (clearNodeDimensionsCacheForText ''z''
           \<lparr>textMeasurementElement = None, textMeasurementCache = [],
              nodeDimensionsCache =
                [(''0-xy-2'',
                  \<lparr>width = 79, height = 62, textX = 79 / 2, textY = 22, fontSize = ''20px'',
                     fontWeight = ''bold'', lines = [''xy''], padding = 18, minWidth = 40,
                     maxWidth = None\<rparr>),
                 (''0-z-1'',
                  \<lparr>width = 79, height = 62, textX = 79 / 2, textY = 22, fontSize = ''20px'',
                     fontWeight = ''bold'', lines = [''z''], padding = 18, minWidth = 40,
                     maxWidth = None\<rparr>)]\<rparr>)) ''0-xy-2''
       = Some \<lparr>width = 79, height = 62, textX = 79 / 2, textY = 22, fontSize = ''20px'',
                fontWeight = ''bold'', lines = [''xy''], padding = 18, minWidth = 40,
                maxWidth = None\<rparr>"
proof -
  let ?s = "\<lparr>textMeasurementElement = None, textMeasurementCache = [],
              nodeDimensionsCache =
                [(''0-xy-2'',
                  \<lparr>width = 79, height = 62, textX = 79 / 2, textY = 22, fontSize = ''20px'',
                     fontWeight = ''bold'', lines = [''xy''], padding = 18, minWidth = 40,
                     maxWidth = None\<rparr>),
                 (''0-z-1'',
                  \<lparr>width = 79, height = 62, textX = 79 / 2, textY = 22, fontSize = ''20px'',
                     fontWeight = ''bold'', lines = [''z''], padding = 18, minWidth = 40,
                     maxWidth = None\<rparr>)]\<rparr>"
  have a: "js_includes ''0-z-1'' ''z''" and b: "\<not> js_includes ''0-xy-2'' ''z''"
    by simp_all
  from a b clear_by_substring [of "''0-z-1''" "''z''" ?s 0]
    clear_by_substring [of "''0-xy-2''" "''z''" ?s 0]
  show ?thesis by simp
qed





text \<open>
  C9. Without a maximum width, \<open>wrapText\<close> of a non-empty text is \<open>[text]\<close> when the text
  has no line break and otherwise the segments between the line breaks, in order: joining
  the result with line breaks gives the text back, and no returned line contains a line
  break.
\<close>

theorem wrapText_no_maxWidth:
  assumes "text \<noteq> []"
  shows "wrapText text None fs =
           (if CHR 0x0A \<in> set text then js_split (CHR 0x0A) text else [text])
         \<and> js_join [CHR 0x0A] (wrapText text None fs) = text
         \<and> (\<forall>l \<in> set (wrapText text None fs). CHR 0x0A \<notin> set l)"
proof -
  have eq: "wrapText text None fs = js_split (CHR 0x0A) text"
    using assms by (simp add: wrapText_def js_split_no_sep_id)
  show ?thesis
    using assms eq js_join_js_split [of "CHR 0x0A" "text"] js_split_no_sep [of _ "CHR 0x0A" "text"]
    by (auto simp: js_split_no_sep_id)
qed

theorem wrapText_no_maxWidth_witness:
  "[CHR ''a'', CHR 0x0A, CHR 0x0A, CHR ''b''] \<noteq> []
   \<and> wrapText [CHR ''a'', CHR 0x0A, CHR 0x0A, CHR ''b''] None 15 = [''a'', [], ''b'']
   \<and> js_join [CHR 0x0A] (wrapText [CHR ''a'', CHR 0x0A, CHR 0x0A, CHR ''b''] None 15)
       = [CHR ''a'', CHR 0x0A, CHR 0x0A, CHR ''b'']
   \<and> wrapText ''ab'' None 15 = [''ab'']"
  using wrapText_no_maxWidth [of "[CHR ''a'', CHR 0x0A, CHR 0x0A, CHR ''b'']" 15]
    wrapText_no_maxWidth [of "''ab''" 15]
  by simp

text \<open>
  C10. Invalidating the empty string empties both caches, whatever they held: every key
  contains the empty string.
\<close>

theorem clear_empty_text_flushes:
  "nodeDimensionsCache (clearNodeDimensionsCacheForText [] this) = []
   \<and> textMeasurementCache (clearNodeDimensionsCacheForText [] this) = []"
  by (simp add: clearNodeDimensionsCacheForText_def Let_def js_includes_Nil fold_delete_all)

text \<open>
  C8. With a maximum width configured, every line returned by \<open>wrapText\<close> is a non-empty
  run of consecutive words of the text (its pieces between single spaces), joined by
  single spaces: a line never holds a part of a word, so no word is split across two
  lines. This holds for every text, width and font size, also when a word is longer than
  the limit.
\<close>

theorem wrapText_keeps_words_whole:
  "\<forall>line \<in> set (wrapText text (Some mw) fs).
     \<exists>ws. ws \<noteq> [] \<and> sublist ws (js_split (CHR '' '') text) \<and> line = js_join '' '' ws"
proof -
  let ?words = "js_split (CHR '' '') text"
  let ?mc = "floor_quot mw (fs * 0.62)"
  have whole: "whole_words ?words text"
    unfolding whole_words_def
    using js_split_not_Nil [of "CHR '' ''" "text"] js_join_js_split [of "CHR '' ''" "text"]
    by (intro exI [of _ ?words]) simp
  have "\<forall>line \<in> set (wrapText text (Some mw) fs). whole_words ?words line"
  proof (cases "text = [] \<or> len_le (length text) ?mc")
    case True
    then have "wrapText text (Some mw) fs = [text]"
      by (auto simp: wrapText_def Let_def)
    with whole show ?thesis by simp
  next
    case False
    obtain pushed cur where loop: "wrapLoop ?mc ?words [] [] = (pushed, cur)"
      by (cases "wrapLoop ?mc ?words [] []")
    from wrapLoop_inv [of "[]" "[]" ?words "[]" ?mc pushed cur] loop
    have p: "\<forall>l \<in> set pushed. whole_words ?words l"
      and c: "cur = [] \<or> (\<exists>run. run \<noteq> [] \<and> suffix run ?words \<and> cur = js_join '' '' run)"
      and b: "pushed = [] \<and> cur = [] \<longrightarrow> (\<forall>w \<in> set ?words. w = [])"
      by simp_all
    from c have c': "cur \<noteq> [] \<longrightarrow> whole_words ?words cur"
      unfolding whole_words_def by (metis suffix_imp_sublist)
    let ?lines = "if cur \<noteq> [] then pushed @ [cur] else pushed"
    have w: "wrapText text (Some mw) fs =
               (if length ?lines > 0 then ?lines else [substring0 text ?mc])"
      using False loop by (simp add: wrapText_def Let_def)
    show ?thesis
    proof (cases "length ?lines > 0")
      case True
      with w p c' show ?thesis by (auto split: if_splits)
    next
      case False
      then have "pushed = [] \<and> cur = []" by (auto split: if_splits)
      with b blank_substring [of "text" ?mc] w False show ?thesis by simp
    qed
  qed
  then show ?thesis unfolding whole_words_def .
qed

theorem wrapText_keeps_words_whole_witness:
  "wrapText ''hello world foo bar'' (Some 50) 10 = [''hello'', ''world'', ''foo bar'']
   \<and> js_split (CHR '' '') ''hello world foo bar'' = [''hello'', ''world'', ''foo'', ''bar'']
   \<and> ''foo bar'' \<in> set (wrapText ''hello world foo bar'' (Some 50) 10)
   \<and> (\<exists>ws. ws \<noteq> [] \<and> sublist ws (js_split (CHR '' '') ''hello world foo bar'')
          \<and> ''foo bar'' = js_join '' '' ws)"
proof -
  have w: "wrapText ''hello world foo bar'' (Some 50) 10 = [''hello'', ''world'', ''foo bar'']"
    by (simp add: wrapText_def floor_quot_def Let_def)
  have s: "js_split (CHR '' '') ''hello world foo bar'' = [''hello'', ''world'', ''foo'', ''bar'']"
    by simp
  have m: "''foo bar'' \<in> set (wrapText ''hello world foo bar'' (Some 50) 10)"
    unfolding w by simp
  from wrapText_keeps_words_whole [of "''hello world foo bar''" 50 10, THEN bspec, OF m]
  have "\<exists>ws. ws \<noteq> [] \<and> sublist ws (js_split (CHR '' '') ''hello world foo bar'')
          \<and> ''foo bar'' = js_join '' '' ws" .
  with w s m show ?thesis by blast
qed

section \<open>Overlap resolution: properties\<close>

text \<open>
  C1. When \<open>resolveOverlaps\<close> returns with the convergence flag set, any two nodes of the
  resulting tree that are not in an ancestor/descendant relationship do not overlap:
  \<open>isOverlapping\<close> applied to their centers and heights with the configured minimum gap
  is false. The resolver is the one modelled above from the specification.
\<close>

theorem resolveOverlaps_no_overlap:
  assumes "resolveOverlaps cap minGap rootNode = (rootNode', adjustments, True)"
    and "p \<in> set (preorder rootNode')" and "q \<in> set (preorder rootNode')"
    and "\<not> related p q"
  shows "\<exists>a b. node_at rootNode' p = Some a \<and> node_at rootNode' q = Some b
           \<and> \<not> isOverlapping (center a) (nodeHeight a) (center b) (nodeHeight b) minGap"
proof -
  from assms(1) have "detection_pass minGap rootNode' = (rootNode', [])"
    unfolding resolveOverlaps_def by (rule resolveOverlaps_from_converged)
  then have quiet: "\<forall>(p, q) \<in> set (candidates rootNode'). clear_of minGap rootNode' p q"
    using detection_pass_quiet by blast
  from assms(4) have "p \<noteq> q" by (auto simp: related_def)
  let ?order = "sort_key (center_at rootNode') (preorder rootNode')"
  from assms(2,3) have "p \<in> set ?order" and "q \<in> set ?order" by simp_all
  from this \<open>p \<noteq> q\<close>
  have "(p, q) \<in> set (pairs ?order) \<or> (q, p) \<in> set (pairs ?order)"
    by (rule pairs_complete)
  moreover from assms(4) have "\<not> related q p" by (auto simp: related_def)
  ultimately have "(p, q) \<in> set (candidates rootNode') \<or> (q, p) \<in> set (candidates rootNode')"
    using assms(4) by (auto simp: candidates_def)
  with quiet have c: "clear_of minGap rootNode' p q \<or> clear_of minGap rootNode' q p"
    by blast
  obtain a b where a: "node_at rootNode' p = Some a" and b: "node_at rootNode' q = Some b"
    using node_at_preorder(1) assms(2,3) by blast
  from c a b have "\<not> isOverlapping (center a) (nodeHeight a) (center b) (nodeHeight b) minGap"
    unfolding clear_of_def using isOverlapping_sym by blast
  with a b show ?thesis by blast
qed

theorem resolveOverlaps_no_overlap_witness:
  "resolveOverlaps 5 25 (Node 0 40 [Node 0 40 [], Node 10 40 []])
     = (Node 0 40 [Node 0 40 [], Node 65 40 []], [([1], 10, 65)], True)
   \<and> [0] \<in> set (preorder (Node 0 40 [Node 0 40 [], Node 65 40 []]))
   \<and> [1] \<in> set (preorder (Node 0 40 [Node 0 40 [], Node 65 40 []]))
   \<and> \<not> related [0] [1]
   \<and> isOverlapping 0 40 10 40 25
   \<and> \<not> isOverlapping 0 40 65 40 25"
proof -
  have r: "resolveOverlaps 5 25 (Node 0 40 [Node 0 40 [], Node 10 40 []])
     = (Node 0 40 [Node 0 40 [], Node 65 40 []], [([1], 10, 65)], True)"
    by (simp add: resolveOverlaps_def detection_pass_def candidates_def center_at_def
        related_def resolve_pair_def isOverlapping_def calculateActualGap_def Let_def
        numeral_eq_Suc)
  have p: "[0] \<in> set (preorder (Node 0 40 [Node 0 40 [], Node 65 40 []]))"
    and q: "[1] \<in> set (preorder (Node 0 40 [Node 0 40 [], Node 65 40 []]))"
    and n: "\<not> related [0] [1]"
    by (simp_all add: related_def)
  from resolveOverlaps_no_overlap [OF r p q n] r p q n
  show ?thesis by (simp add: isOverlapping_def)
qed

end
